theory Spec2Isabelle
  imports Complex_Main "HOL-Library.Multiset" "HOL-Library.Product_Lexorder"
begin

text \<open>
  The attendance server of \<open>backend/server.py\<close>: persons are registered and deleted,
  attendance is marked once per person and day, and listings and statistics are read from
  the two MongoDB collections \<open>persons\<close> and \<open>attendance\<close>. The handlers are modelled as
  functions from the database to a result and the database after the call, first each one
  as a whole, then as sequences of storage operations that requests served concurrently
  interleave.
\<close>

section \<open>Data model of \<open>backend/server.py\<close>\<close>

text \<open>
  A Python \<open>datetime\<close> is kept with its calendar fields. The type itself bounds them
  (\<open>MINYEAR = 1\<close>, \<open>MAXYEAR = 9999\<close>, months 1 to 12, days 1 to 31), which
  \<open>valid_date\<close> records. Naive datetimes compare field by field, so the sort key is the
  tuple of the fields in lexicographic order.
\<close>

record datetime =
  year :: nat
  month :: nat
  day :: nat
  hour :: nat
  minute :: nat
  second :: nat
  microsecond :: nat

definition valid_date :: "datetime \<Rightarrow> bool" where
  "valid_date d \<longleftrightarrow>
     1 \<le> year d \<and> year d \<le> 9999 \<and> 1 \<le> month d \<and> month d \<le> 12 \<and> 1 \<le> day d \<and> day d \<le> 31"

definition calendar_day :: "datetime \<Rightarrow> nat \<times> nat \<times> nat" where
  "calendar_day d = (year d, month d, day d)"

definition dt_key :: "datetime \<Rightarrow> nat \<times> nat \<times> nat \<times> nat \<times> nat \<times> nat \<times> nat" where
  "dt_key d = (year d, month d, day d, hour d, minute d, second d, microsecond d)"

text \<open>
  \<open>strftime("%Y-%m-%d")\<close>: the year as four decimal digits, the month and the day as two,
  each padded with zeros. \<open>decimal w n\<close> writes the \<open>w\<close> low decimal digits of \<open>n\<close>;
  \<open>digit\<close> is only applied to a number below ten.
\<close>

definition digit :: "nat \<Rightarrow> char" where
  "digit n = ''0123456789'' ! n"

fun decimal :: "nat \<Rightarrow> nat \<Rightarrow> string" where
  "decimal 0 n = []"
| "decimal (Suc w) n = decimal w (n div 10) @ [digit (n mod 10)]"

definition strftime_ymd :: "datetime \<Rightarrow> string" where
  "strftime_ymd d = decimal 4 (year d) @ ''-'' @ decimal 2 (month d) @ ''-'' @ decimal 2 (day d)"

text \<open>
  The pydantic models. Field names carry a prefix per model, since \<open>Person\<close>,
  \<open>PersonCreate\<close>, \<open>AttendanceRecord\<close> and \<open>AttendanceCreate\<close> share the names \<open>id\<close>,
  \<open>name\<close>, \<open>employee_id\<close> and \<open>photo\<close>. A Python \<open>float\<close> that the code only stores
  (\<open>confidence\<close>) is kept as the rational it denotes.
\<close>

record person =
  p_id :: string
  p_name :: string
  p_employee_id :: string
  p_face_descriptor :: string
  p_photo :: string
  p_role :: string
  p_created_at :: datetime

record person_create =
  pc_name :: string
  pc_employee_id :: string
  pc_face_descriptor :: string
  pc_photo :: string
  pc_role :: string

record attendance_record =
  a_id :: string
  a_person_id :: string
  a_person_name :: string
  a_employee_id :: string
  a_timestamp :: datetime
  a_date :: string
  a_confidence :: rat
  a_photo :: "string option"

record attendance_create =
  ac_person_id :: string
  ac_person_name :: string
  ac_employee_id :: string
  ac_confidence :: rat
  ac_photo :: "string option"


text \<open>
  The database \<open>db\<close> holds the two collections \<open>db.persons\<close> and \<open>db.attendance\<close>, each a
  list of documents in insertion order. The source creates no index on either. A stored
  document is the model object itself: what the driver adds or changes when it encodes one
  (the \<open>_id\<close> field, the precision of a stored datetime) is left out.
\<close>

record db =
  persons :: "person list"
  attendance :: "attendance_record list"

definition empty_db :: db where
  "empty_db = \<lparr>persons = [], attendance = []\<rparr>"

text \<open>
  The \<open>HTTPException\<close>s the handlers raise for business reasons: status 400 with
  "Employee ID already exists", 404 with "Person not found", 400 with "Attendance already
  marked for today". The status-500 branches answer an exception of the storage driver;
  the collections below never raise, so those branches have no counterpart.
\<close>

datatype error = DuplicateEmployeeId | PersonNotFound | AttendanceAlreadyMarked

section \<open>Collection operations\<close>

definition find_one :: "('a \<Rightarrow> bool) \<Rightarrow> 'a list \<Rightarrow> 'a option" where
  "find_one q docs = List.find q docs"

definition insert_one :: "'a \<Rightarrow> 'a list \<Rightarrow> 'a list" where
  "insert_one doc docs = docs @ [doc]"

fun delete_one :: "('a \<Rightarrow> bool) \<Rightarrow> 'a list \<Rightarrow> nat \<times> 'a list" where
  "delete_one q [] = (0, [])"
| "delete_one q (x # xs) =
     (if q x then (1, xs) else (let (n, ys) = delete_one q xs in (n, x # ys)))"

definition delete_many :: "('a \<Rightarrow> bool) \<Rightarrow> 'a list \<Rightarrow> 'a list" where
  "delete_many q docs = filter (\<lambda>x. \<not> q x) docs"

definition count_documents :: "('a \<Rightarrow> bool) \<Rightarrow> 'a list \<Rightarrow> int" where
  "count_documents q docs = int (length (filter q docs))"

definition find_to_list :: "('a \<Rightarrow> bool) \<Rightarrow> nat \<Rightarrow> 'a list \<Rightarrow> 'a list" where
  "find_to_list q n docs = take n (filter q docs)"

text \<open>
  \<open>find(q).sort(key, -1).to_list(n)\<close>: the matches by descending key, the first \<open>n\<close>.
  The database does not fix the order among matches of equal key; the definition picks
  one, and no fact below depends on which.
\<close>

definition find_sort_desc_to_list ::
    "('a \<Rightarrow> bool) \<Rightarrow> ('a \<Rightarrow> 'k::linorder) \<Rightarrow> nat \<Rightarrow> 'a list \<Rightarrow> 'a list" where
  "find_sort_desc_to_list q k n docs = take n (rev (sort_key k (filter q docs)))"

section \<open>Request handlers\<close>

text \<open>
  What a handler takes from outside the database is passed in: the \<open>uuid4\<close> drawn for the
  new document's \<open>id\<close> and each reading of the clock. \<open>mark_attendance\<close> reads the local
  clock twice, for \<open>today\<close> and again in the default of \<open>AttendanceRecord.date\<close>, and the
  UTC clock once, in the default of \<open>AttendanceRecord.timestamp\<close>.
\<close>

record person_env =
  pe_uuid4 :: string
  pe_utcnow :: datetime

record mark_env =
  me_now :: datetime
  me_uuid4 :: string
  me_utcnow :: datetime
  me_now_default :: datetime

definition new_person :: "person_env \<Rightarrow> person_create \<Rightarrow> person" where
  "new_person e d =
     \<lparr>p_id = pe_uuid4 e, p_name = pc_name d, p_employee_id = pc_employee_id d,
      p_face_descriptor = pc_face_descriptor d, p_photo = pc_photo d, p_role = pc_role d,
      p_created_at = pe_utcnow e\<rparr>"

definition create_person :: "person_env \<Rightarrow> person_create \<Rightarrow> db \<Rightarrow> (error + person) \<times> db" where
  "create_person e person_data s =
     (case find_one (\<lambda>p. p_employee_id p = pc_employee_id person_data) (persons s) of
        Some existing_person \<Rightarrow> (Inl DuplicateEmployeeId, s)
      | None \<Rightarrow>
          (let person_obj = new_person e person_data
           in (Inr person_obj, s\<lparr>persons := insert_one person_obj (persons s)\<rparr>)))"

definition get_all_persons :: "db \<Rightarrow> (error + person list) \<times> db" where
  "get_all_persons s = (Inr (find_to_list (\<lambda>p. True) 1000 (persons s)), s)"

definition get_person :: "string \<Rightarrow> db \<Rightarrow> (error + person) \<times> db" where
  "get_person person_id s =
     (case find_one (\<lambda>p. p_id p = person_id) (persons s) of
        None \<Rightarrow> (Inl PersonNotFound, s)
      | Some p \<Rightarrow> (Inr p, s))"

definition delete_person :: "string \<Rightarrow> db \<Rightarrow> (error + string) \<times> db" where
  "delete_person person_id s =
     (let (deleted_count, ps) = delete_one (\<lambda>p. p_id p = person_id) (persons s);
          s1 = s\<lparr>persons := ps\<rparr>
      in if deleted_count = 0 then (Inl PersonNotFound, s1)
         else (Inr ''Person and their attendance records deleted successfully'',
               s1\<lparr>attendance := delete_many (\<lambda>r. a_person_id r = person_id) (attendance s1)\<rparr>))"

definition new_attendance :: "mark_env \<Rightarrow> attendance_create \<Rightarrow> attendance_record" where
  "new_attendance e d =
     \<lparr>a_id = me_uuid4 e, a_person_id = ac_person_id d, a_person_name = ac_person_name d,
      a_employee_id = ac_employee_id d, a_timestamp = me_utcnow e,
      a_date = strftime_ymd (me_now_default e), a_confidence = ac_confidence d,
      a_photo = ac_photo d\<rparr>"

definition mark_attendance ::
    "mark_env \<Rightarrow> attendance_create \<Rightarrow> db \<Rightarrow> (error + attendance_record) \<times> db" where
  "mark_attendance e attendance_data s =
     (case find_one (\<lambda>p. p_id p = ac_person_id attendance_data) (persons s) of
        None \<Rightarrow> (Inl PersonNotFound, s)
      | Some person \<Rightarrow>
          (let today = strftime_ymd (me_now e)
           in case find_one (\<lambda>r. a_person_id r = ac_person_id attendance_data \<and> a_date r = today)
                     (attendance s) of
                Some existing_attendance \<Rightarrow> (Inl AttendanceAlreadyMarked, s)
              | None \<Rightarrow>
                  (let attendance_obj = new_attendance e attendance_data
                   in (Inr attendance_obj,
                       s\<lparr>attendance := insert_one attendance_obj (attendance s)\<rparr>))))"




definition get_person_attendance_history ::
    "string \<Rightarrow> db \<Rightarrow> (error + attendance_record list) \<times> db" where
  "get_person_attendance_history person_id s =
     (Inr (find_sort_desc_to_list (\<lambda>r. a_person_id r = person_id) (\<lambda>r. dt_key (a_timestamp r))
             100 (attendance s)), s)"

definition get_attendance_by_date ::
    "string \<Rightarrow> db \<Rightarrow> (error + attendance_record list) \<times> db" where
  "get_attendance_by_date date_str s =
     (Inr (find_to_list (\<lambda>r. a_date r = date_str) 1000 (attendance s)), s)"

section \<open>Invariants and runs of requests\<close>

text \<open>
  The invariants of the data model: no two persons with one \<open>employee_id\<close>, no two
  attendance records with one \<open>(person_id, date)\<close>, every attendance record with a stored
  person, and no two persons with one \<open>id\<close>.
\<close>

definition unique_employee_ids :: "db \<Rightarrow> bool" where
  "unique_employee_ids s \<longleftrightarrow> distinct (map p_employee_id (persons s))"

definition mark_key :: "attendance_record \<Rightarrow> string \<times> string" where
  "mark_key r = (a_person_id r, a_date r)"

definition unique_marks :: "db \<Rightarrow> bool" where
  "unique_marks s \<longleftrightarrow> distinct (map mark_key (attendance s))"

definition no_orphans :: "db \<Rightarrow> bool" where
  "no_orphans s \<longleftrightarrow> (\<forall>r\<in>set (attendance s). \<exists>p\<in>set (persons s). p_id p = a_person_id r)"

definition has_person :: "string \<Rightarrow> db \<Rightarrow> bool" where
  "has_person pid s \<longleftrightarrow> (\<exists>p\<in>set (persons s). p_id p = pid)"

definition has_mark :: "string \<Rightarrow> string \<Rightarrow> db \<Rightarrow> bool" where
  "has_mark pid d s \<longleftrightarrow> (\<exists>r\<in>set (attendance s). a_person_id r = pid \<and> a_date r = d)"

definition unique_person_ids :: "db \<Rightarrow> bool" where
  "unique_person_ids s \<longleftrightarrow> distinct (map p_id (persons s))"

text \<open>
  The requests that change the database, each with what it takes from outside, and the
  database that a sequence of them leaves when each runs to its end before the next begins.
  \<open>single_day\<close> holds of a marking whose two readings of the local clock fall on one day.
\<close>

datatype request =
    CreatePerson person_env person_create
  | DeletePerson string
  | MarkAttendance mark_env attendance_create

fun apply_request :: "request \<Rightarrow> db \<Rightarrow> db" where
  "apply_request (CreatePerson e d) s = snd (create_person e d s)"
| "apply_request (DeletePerson pid) s = snd (delete_person pid s)"
| "apply_request (MarkAttendance e a) s = snd (mark_attendance e a s)"

definition run :: "request list \<Rightarrow> db \<Rightarrow> db" where
  "run rs s = fold apply_request rs s"





text \<open>The ids that the registrations of a run were given.\<close>

fun created_ids :: "request list \<Rightarrow> string list" where
  "created_ids [] = []"
| "created_ids (CreatePerson e d # rs) = pe_uuid4 e # created_ids rs"
| "created_ids (r # rs) = created_ids rs"

section \<open>Sequences of registrations, and the running example\<close>

text \<open>
  \<open>register_all\<close> runs registrations one after the other and collects their results;
  \<open>successes\<close> keeps the results that are not errors.
\<close>

fun register_all ::
    "(person_env \<times> person_create) list \<Rightarrow> db \<Rightarrow> (error + person) list \<times> db" where
  "register_all [] s = ([], s)"
| "register_all ((e, d) # cs) s =
     (let (r, s1) = create_person e d s; (rs, s2) = register_all cs s1 in (r # rs, s2))"

fun successes :: "('e + 'a) list \<Rightarrow> 'a list" where
  "successes [] = []"
| "successes (Inl e # rs) = successes rs"
| "successes (Inr x # rs) = x # successes rs"

text \<open>
  The running example: Alice and Bob, registered on 7 March 2024, and markings of Alice
  at several readings of the clocks, the local clock one hour ahead of UTC.
\<close>

definition mk_datetime :: "nat \<Rightarrow> nat \<Rightarrow> nat \<Rightarrow> nat \<Rightarrow> nat \<Rightarrow> datetime" where
  "mk_datetime y m d h mi =
     \<lparr>year = y, month = m, day = d, hour = h, minute = mi, second = 0, microsecond = 0\<rparr>"

definition alice :: person_create where
  "alice = \<lparr>pc_name = ''Alice'', pc_employee_id = ''EMP001'', pc_face_descriptor = ''ZmFjZQ=='',
            pc_photo = ''cGhvdG8='', pc_role = ''employee''\<rparr>"

definition bob :: person_create where
  "bob = \<lparr>pc_name = ''Bob'', pc_employee_id = ''EMP002'', pc_face_descriptor = ''ZmFjZTI='',
          pc_photo = ''cGhvdG8y'', pc_role = ''student''\<rparr>"

definition env_a :: person_env where
  "env_a = \<lparr>pe_uuid4 = ''id-a'', pe_utcnow = mk_datetime 2024 3 7 8 0\<rparr>"

definition env_b :: person_env where
  "env_b = \<lparr>pe_uuid4 = ''id-b'', pe_utcnow = mk_datetime 2024 3 7 8 5\<rparr>"

definition mark_alice :: attendance_create where
  "mark_alice = \<lparr>ac_person_id = ''id-a'', ac_person_name = ''Alice'', ac_employee_id = ''EMP001'',
                 ac_confidence = 95 / 100, ac_photo = None\<rparr>"

definition clock_1 :: mark_env where
  "clock_1 = \<lparr>me_now = mk_datetime 2024 3 7 10 0, me_uuid4 = ''id-r1'',
              me_utcnow = mk_datetime 2024 3 7 9 0, me_now_default = mk_datetime 2024 3 7 10 0\<rparr>"

definition clock_2 :: mark_env where
  "clock_2 = \<lparr>me_now = mk_datetime 2024 3 7 17 30, me_uuid4 = ''id-r2'',
              me_utcnow = mk_datetime 2024 3 7 16 30, me_now_default = mk_datetime 2024 3 7 17 30\<rparr>"

definition clock_3 :: mark_env where
  "clock_3 = \<lparr>me_now = mk_datetime 2024 3 8 0 30, me_uuid4 = ''id-r3'',
              me_utcnow = mk_datetime 2024 3 7 23 30, me_now_default = mk_datetime 2024 3 8 0 30\<rparr>"




text \<open>An open day: 1001 visitors register and are marked present on 7 March 2024.\<close>

definition visitor_id :: "nat \<Rightarrow> string" where
  "visitor_id i = ''visitor-'' @ decimal 4 i"

definition visitor_person :: "nat \<Rightarrow> person" where
  "visitor_person i =
     \<lparr>p_id = visitor_id i, p_name = ''Visitor'', p_employee_id = ''V'' @ decimal 4 i,
      p_face_descriptor = [], p_photo = [], p_role = ''student'',
      p_created_at = mk_datetime 2024 3 7 8 0\<rparr>"

definition visitor_record :: "nat \<Rightarrow> attendance_record" where
  "visitor_record i =
     \<lparr>a_id = ''record-'' @ decimal 4 i, a_person_id = visitor_id i, a_person_name = ''Visitor'',
      a_employee_id = ''V'' @ decimal 4 i, a_timestamp = mk_datetime 2024 3 7 9 0,
      a_date = ''2024-03-07'', a_confidence = 9 / 10, a_photo = None\<rparr>"

definition register_visitor :: "nat \<Rightarrow> request" where
  "register_visitor i =
     CreatePerson \<lparr>pe_uuid4 = visitor_id i, pe_utcnow = mk_datetime 2024 3 7 8 0\<rparr>
       \<lparr>pc_name = ''Visitor'', pc_employee_id = ''V'' @ decimal 4 i, pc_face_descriptor = [],
        pc_photo = [], pc_role = ''student''\<rparr>"

definition mark_visitor :: "nat \<Rightarrow> request" where
  "mark_visitor i =
     MarkAttendance
       \<lparr>me_now = mk_datetime 2024 3 7 10 0, me_uuid4 = ''record-'' @ decimal 4 i,
        me_utcnow = mk_datetime 2024 3 7 9 0, me_now_default = mk_datetime 2024 3 7 10 0\<rparr>
       \<lparr>ac_person_id = visitor_id i, ac_person_name = ''Visitor'',
        ac_employee_id = ''V'' @ decimal 4 i, ac_confidence = 9 / 10, ac_photo = None\<rparr>"

definition open_day :: db where
  "open_day = run (map register_visitor [0..<1001] @ map mark_visitor [0..<1001]) empty_db"

section \<open>Notions of the specification\<close>

text \<open>
  The stored records of a date and of a person, and the order "at least as recent as" on
  attendance records, in which the specification states what the listings return.
\<close>

definition records_on :: "string \<Rightarrow> db \<Rightarrow> attendance_record list" where
  "records_on d s = filter (\<lambda>r. a_date r = d) (attendance s)"

definition records_of :: "string \<Rightarrow> db \<Rightarrow> attendance_record list" where
  "records_of pid s = filter (\<lambda>r. a_person_id r = pid) (attendance s)"

definition newer_or_equal :: "attendance_record \<Rightarrow> attendance_record \<Rightarrow> bool" where
  "newer_or_equal x y \<longleftrightarrow> dt_key (a_timestamp y) \<le> dt_key (a_timestamp x)"

section \<open>Requests interleaved at their storage operations\<close>

text \<open>
  The handlers are coroutines: each \<open>await db.\<dots>\<close> is one storage operation, and between
  two of them the event loop may run the storage operations of other requests. A \<open>task\<close>
  is a handler suspended before a storage operation, named after the operation and
  carrying what the handler holds at that point; \<open>task_step\<close> performs the operation and
  the Python code up to the next \<open>await\<close>, \<open>return\<close> or \<open>raise\<close>.
\<close>

datatype reply =
    Person_reply person
  | Message_reply string
  | Attendance_reply attendance_record
  | Attendance_list_reply "attendance_record list"
  | Error_reply error

datatype task =
    Create_find_one person_env person_create
  | Create_insert_one person_env person_create
  | Delete_delete_one string
  | Delete_delete_many string
  | Mark_find_person mark_env attendance_create
  | Mark_find_attendance mark_env attendance_create
  | Mark_insert_one mark_env attendance_create
  | Get_person_find_one string
  | History_find string
  | By_date_find string
  | Done reply

fun task_step :: "task \<Rightarrow> db \<Rightarrow> task \<times> db" where
  "task_step (Create_find_one e person_data) s =
     (case find_one (\<lambda>p. p_employee_id p = pc_employee_id person_data) (persons s) of
        Some existing_person \<Rightarrow> (Done (Error_reply DuplicateEmployeeId), s)
      | None \<Rightarrow> (Create_insert_one e person_data, s))"
| "task_step (Create_insert_one e person_data) s =
     (let person_obj = new_person e person_data
      in (Done (Person_reply person_obj), s\<lparr>persons := insert_one person_obj (persons s)\<rparr>))"
| "task_step (Delete_delete_one person_id) s =
     (let (deleted_count, ps) = delete_one (\<lambda>p. p_id p = person_id) (persons s);
          s1 = s\<lparr>persons := ps\<rparr>
      in if deleted_count = 0 then (Done (Error_reply PersonNotFound), s1)
         else (Delete_delete_many person_id, s1))"
| "task_step (Delete_delete_many person_id) s =
     (Done (Message_reply ''Person and their attendance records deleted successfully''),
      s\<lparr>attendance := delete_many (\<lambda>r. a_person_id r = person_id) (attendance s)\<rparr>)"
| "task_step (Mark_find_person e attendance_data) s =
     (case find_one (\<lambda>p. p_id p = ac_person_id attendance_data) (persons s) of
        None \<Rightarrow> (Done (Error_reply PersonNotFound), s)
      | Some person \<Rightarrow> (Mark_find_attendance e attendance_data, s))"
| "task_step (Mark_find_attendance e attendance_data) s =
     (let today = strftime_ymd (me_now e)
      in case find_one (\<lambda>r. a_person_id r = ac_person_id attendance_data \<and> a_date r = today)
                (attendance s) of
           Some existing_attendance \<Rightarrow> (Done (Error_reply AttendanceAlreadyMarked), s)
         | None \<Rightarrow> (Mark_insert_one e attendance_data, s))"
| "task_step (Mark_insert_one e attendance_data) s =
     (let attendance_obj = new_attendance e attendance_data
      in (Done (Attendance_reply attendance_obj),
          s\<lparr>attendance := insert_one attendance_obj (attendance s)\<rparr>))"
| "task_step (Get_person_find_one person_id) s =
     (case find_one (\<lambda>p. p_id p = person_id) (persons s) of
        None \<Rightarrow> (Done (Error_reply PersonNotFound), s)
      | Some p \<Rightarrow> (Done (Person_reply p), s))"
| "task_step (History_find person_id) s =
     (Done (Attendance_list_reply
        (find_sort_desc_to_list (\<lambda>r. a_person_id r = person_id) (\<lambda>r. dt_key (a_timestamp r))
           100 (attendance s))), s)"
| "task_step (By_date_find date_str) s =
     (Done (Attendance_list_reply (find_to_list (\<lambda>r. a_date r = date_str) 1000 (attendance s))), s)"
| "task_step (Done r) s = (Done r, s)"

text \<open>\<open>run_task n\<close> lets one task perform its next \<open>n\<close> storage operations back to back.\<close>

fun run_task :: "nat \<Rightarrow> task \<Rightarrow> db \<Rightarrow> task \<times> db" where
  "run_task 0 t s = (t, s)"
| "run_task (Suc n) t s = (let (t', s') = task_step t s in run_task n t' s')"

text \<open>
  A schedule lists, storage operation by storage operation, the index of the task whose
  turn it is.
\<close>

fun run_schedule :: "nat list \<Rightarrow> task list \<Rightarrow> db \<Rightarrow> task list \<times> db" where
  "run_schedule [] ts s = (ts, s)"
| "run_schedule (i # sched) ts s =
     (if i < length ts
      then (let (t', s') = task_step (ts ! i) s in run_schedule sched (ts[i := t']) s')
      else run_schedule sched ts s)"

definition to_reply :: "('a \<Rightarrow> reply) \<Rightarrow> error + 'a \<Rightarrow> reply" where
  "to_reply f r = (case r of Inl e \<Rightarrow> Error_reply e | Inr x \<Rightarrow> f x)"

section \<open>Facts about the collection operations and the handlers\<close>

lemma find_one_None_iff: "find_one q docs = None \<longleftrightarrow> (\<forall>x\<in>set docs. \<not> q x)"
  by (auto simp: find_one_def find_None_iff)

lemma find_one_Some_holds: "find_one q docs = Some x \<Longrightarrow> x \<in> set docs \<and> q x"
  by (auto simp: find_one_def find_Some_iff)

lemma snd_delete_one_Cons:
  "snd (delete_one q (x # xs)) = (if q x then xs else x # snd (delete_one q xs))"
  by (simp split: prod.splits)

lemma fst_delete_one_Cons:
  "fst (delete_one q (x # xs)) = (if q x then 1 else fst (delete_one q xs))"
  by (simp split: prod.splits)

lemmas delete_one_Cons = fst_delete_one_Cons snd_delete_one_Cons

lemma fst_delete_one: "fst (delete_one q xs) = (if \<exists>x\<in>set xs. q x then 1 else 0)"
  by (induction xs) (simp_all add: delete_one_Cons del: delete_one.simps(2))

lemma delete_one_none: "\<forall>x\<in>set xs. \<not> q x \<Longrightarrow> snd (delete_one q xs) = xs"
  by (induction xs) (simp_all add: delete_one_Cons del: delete_one.simps(2))

lemma delete_one_subset: "set (snd (delete_one q xs)) \<subseteq> set xs"
  by (induction xs) (auto simp: delete_one_Cons simp del: delete_one.simps(2))


lemma delete_one_mset:
  "\<exists>x\<in>set xs. q x \<Longrightarrow> \<exists>x. q x \<and> mset xs = add_mset x (mset (snd (delete_one q xs)))"
  by (induction xs) (auto simp: delete_one_Cons simp del: delete_one.simps(2))

lemma delete_one_distinct: "distinct (map f xs) \<Longrightarrow> distinct (map f (snd (delete_one q xs)))"
proof (induction xs)
  case Nil
  then show ?case by simp
next
  case (Cons x xs)
  have "f x \<notin> f ` set (snd (delete_one q xs))"
    using Cons.prems delete_one_subset[of q xs] by auto
  with Cons show ?case
    by (simp add: delete_one_Cons del: delete_one.simps(2))
qed

lemma delete_one_key_gone:
  "distinct (map f xs) \<Longrightarrow> x \<in> set (snd (delete_one (\<lambda>x. f x = k) xs)) \<Longrightarrow> f x \<noteq> k"
proof (induction xs)
  case Nil
  then show ?case by simp
next
  case (Cons y ys)
  show ?case
  proof (cases "f y = k")
    case True
    with Cons.prems have "x \<in> set ys" "f y \<notin> f ` set ys"
      by (simp_all add: delete_one_Cons del: delete_one.simps(2))
    with True show ?thesis by (metis imageI)
  next
    case False
    with Cons show ?thesis
      by (auto simp: delete_one_Cons simp del: delete_one.simps(2))
  qed
qed

lemma create_person_duplicate:
  "\<exists>p\<in>set (persons s). p_employee_id p = pc_employee_id d \<Longrightarrow>
   create_person e d s = (Inl DuplicateEmployeeId, s)"
  using find_one_None_iff[of "\<lambda>p. p_employee_id p = pc_employee_id d" "persons s"]
  by (auto simp: create_person_def split: option.splits)

lemma create_person_fresh:
  "\<forall>p\<in>set (persons s). p_employee_id p \<noteq> pc_employee_id d \<Longrightarrow>
   create_person e d s = (Inr (new_person e d), s\<lparr>persons := persons s @ [new_person e d]\<rparr>)"
  using find_one_None_iff[of "\<lambda>p. p_employee_id p = pc_employee_id d" "persons s"]
  by (auto simp: create_person_def insert_one_def Let_def split: option.splits)

lemma create_person_cases:
  "create_person e d s = (Inl DuplicateEmployeeId, s) \<and> (\<exists>p\<in>set (persons s). p_employee_id p = pc_employee_id d)
   \<or> create_person e d s = (Inr (new_person e d), s\<lparr>persons := persons s @ [new_person e d]\<rparr>)
      \<and> (\<forall>p\<in>set (persons s). p_employee_id p \<noteq> pc_employee_id d)"
  using create_person_duplicate[of s d e] create_person_fresh[of s d e] by blast

lemma new_person_employee_id [simp]: "p_employee_id (new_person e d) = pc_employee_id d"
  by (simp add: new_person_def)

lemma new_person_id [simp]: "p_id (new_person e d) = pe_uuid4 e"
  by (simp add: new_person_def)

lemma create_person_unique_employee_ids:
  "unique_employee_ids s \<Longrightarrow> unique_employee_ids (snd (create_person e d s))"
  using create_person_cases[of e d s] by (fastforce simp: unique_employee_ids_def)

lemma create_person_attendance [simp]: "attendance (snd (create_person e d s)) = attendance s"
  using create_person_cases[of e d s] by auto

lemma create_person_persons_mono: "set (persons s) \<subseteq> set (persons (snd (create_person e d s)))"
  using create_person_cases[of e d s] by auto

lemma mark_attendance_not_found:
  "\<not> has_person (ac_person_id a) s \<Longrightarrow> mark_attendance e a s = (Inl PersonNotFound, s)"
  using find_one_None_iff[of "\<lambda>p. p_id p = ac_person_id a" "persons s"]
  by (auto simp: mark_attendance_def has_person_def split: option.splits)

lemma mark_attendance_already:
  "has_person (ac_person_id a) s \<Longrightarrow> has_mark (ac_person_id a) (strftime_ymd (me_now e)) s \<Longrightarrow>
   mark_attendance e a s = (Inl AttendanceAlreadyMarked, s)"
  using find_one_None_iff[of "\<lambda>p. p_id p = ac_person_id a" "persons s"]
    find_one_None_iff[of "\<lambda>r. a_person_id r = ac_person_id a \<and> a_date r = strftime_ymd (me_now e)" "attendance s"]
  by (auto simp: mark_attendance_def has_person_def has_mark_def split: option.splits)

lemma mark_attendance_success:
  "has_person (ac_person_id a) s \<Longrightarrow> \<not> has_mark (ac_person_id a) (strftime_ymd (me_now e)) s \<Longrightarrow>
   mark_attendance e a s =
     (Inr (new_attendance e a), s\<lparr>attendance := attendance s @ [new_attendance e a]\<rparr>)"
  using find_one_None_iff[of "\<lambda>p. p_id p = ac_person_id a" "persons s"]
    find_one_None_iff[of "\<lambda>r. a_person_id r = ac_person_id a \<and> a_date r = strftime_ymd (me_now e)" "attendance s"]
  by (auto simp: mark_attendance_def has_person_def has_mark_def insert_one_def Let_def
      split: option.splits)

lemma mark_attendance_cases:
  "mark_attendance e a s = (Inl PersonNotFound, s) \<and> \<not> has_person (ac_person_id a) s
   \<or> mark_attendance e a s = (Inl AttendanceAlreadyMarked, s) \<and> has_person (ac_person_id a) s
        \<and> has_mark (ac_person_id a) (strftime_ymd (me_now e)) s
   \<or> mark_attendance e a s =
        (Inr (new_attendance e a), s\<lparr>attendance := attendance s @ [new_attendance e a]\<rparr>)
        \<and> has_person (ac_person_id a) s \<and> \<not> has_mark (ac_person_id a) (strftime_ymd (me_now e)) s"
  using mark_attendance_not_found[of a s e] mark_attendance_already[of a s e]
    mark_attendance_success[of a s e] by blast

lemma mark_key_new_attendance [simp]:
  "mark_key (new_attendance e a) = (ac_person_id a, strftime_ymd (me_now_default e))"
  by (simp add: mark_key_def new_attendance_def)

lemma mark_attendance_persons [simp]: "persons (snd (mark_attendance e a s)) = persons s"
  using mark_attendance_cases[of e a s] by auto




lemma delete_person_not_found:
  "\<not> has_person pid s \<Longrightarrow> delete_person pid s = (Inl PersonNotFound, s)"
  using fst_delete_one[of "\<lambda>p. p_id p = pid" "persons s"]
    delete_one_none[of "persons s" "\<lambda>p. p_id p = pid"]
  by (auto simp: delete_person_def has_person_def split: prod.splits)

lemma delete_person_found:
  "has_person pid s \<Longrightarrow>
   delete_person pid s =
     (Inr ''Person and their attendance records deleted successfully'',
      \<lparr>persons = snd (delete_one (\<lambda>p. p_id p = pid) (persons s)),
       attendance = filter (\<lambda>r. a_person_id r \<noteq> pid) (attendance s)\<rparr>)"
  using fst_delete_one[of "\<lambda>p. p_id p = pid" "persons s"]
  by (auto simp: delete_person_def has_person_def delete_many_def split: prod.splits)

lemma delete_person_cases:
  "delete_person pid s = (Inl PersonNotFound, s) \<and> \<not> has_person pid s
   \<or> delete_person pid s =
     (Inr ''Person and their attendance records deleted successfully'',
      \<lparr>persons = snd (delete_one (\<lambda>p. p_id p = pid) (persons s)),
       attendance = filter (\<lambda>r. a_person_id r \<noteq> pid) (attendance s)\<rparr>) \<and> has_person pid s"
  using delete_person_not_found[of pid s] delete_person_found[of pid s] by blast

lemma delete_person_unique_employee_ids:
  "unique_employee_ids s \<Longrightarrow> unique_employee_ids (snd (delete_person pid s))"
  using delete_person_cases[of pid s] delete_one_distinct[of p_employee_id "persons s"]
  by (auto simp: unique_employee_ids_def)



lemma apply_request_unique_employee_ids:
  "unique_employee_ids s \<Longrightarrow> unique_employee_ids (apply_request r s)"
proof (cases r)
  case (MarkAttendance e a)
  assume "unique_employee_ids s"
  with MarkAttendance show ?thesis by (simp add: unique_employee_ids_def)
qed (simp_all add: create_person_unique_employee_ids delete_person_unique_employee_ids)



lemma run_Nil: "run [] s = s"
  by (simp add: run_def)

lemma run_Cons: "run (r # rs) s = run rs (apply_request r s)"
  by (simp add: run_def)

lemma run_append: "run (rs @ rs') s = run rs' (run rs s)"
  by (simp add: run_def)

lemma run_unique_employee_ids: "unique_employee_ids s \<Longrightarrow> unique_employee_ids (run rs s)"
  by (induction rs arbitrary: s) (simp_all add: run_Nil run_Cons apply_request_unique_employee_ids)



lemma empty_db_invariants:
  "unique_employee_ids empty_db" "unique_marks empty_db" "no_orphans empty_db"
  by (simp_all add: empty_db_def unique_employee_ids_def unique_marks_def no_orphans_def)

section \<open>Sequences of registrations and of requests\<close>

lemma fst_register_all_Cons:
  "fst (register_all ((e, d) # cs) s) =
     fst (create_person e d s) # fst (register_all cs (snd (create_person e d s)))"
  by (simp split: prod.splits)

lemma snd_register_all_Cons:
  "snd (register_all ((e, d) # cs) s) = snd (register_all cs (snd (create_person e d s)))"
  by (simp split: prod.splits)

lemmas register_all_Cons = fst_register_all_Cons snd_register_all_Cons

lemma register_all_persons:
  "persons (snd (register_all cs s)) = persons s @ successes (fst (register_all cs s))"
proof (induction cs arbitrary: s)
  case Nil
  then show ?case by simp
next
  case (Cons c cs)
  obtain e d where c: "c = (e, d)" by (cases c)
  from create_person_cases[of e d s] show ?case
    unfolding c register_all_Cons by (auto simp: Cons.IH)
qed

lemma register_all_attendance: "attendance (snd (register_all cs s)) = attendance s"
proof (induction cs arbitrary: s)
  case Nil
  then show ?case by simp
next
  case (Cons c cs)
  obtain e d where c: "c = (e, d)" by (cases c)
  show ?case unfolding c register_all_Cons by (simp add: Cons.IH)
qed

lemma register_all_fresh:
  "p \<in> set (successes (fst (register_all cs s))) \<Longrightarrow> q \<in> set (persons s) \<Longrightarrow>
   p_employee_id q \<noteq> p_employee_id p"
proof (induction cs arbitrary: s)
  case Nil
  then show ?case by simp
next
  case (Cons c cs)
  obtain e d where c: "c = (e, d)" by (cases c)
  let ?s1 = "snd (create_person e d s)"
  from Cons.prems(1) have "p \<in> set (successes [fst (create_person e d s)]) \<or>
      p \<in> set (successes (fst (register_all cs ?s1)))"
    unfolding c register_all_Cons by (cases "fst (create_person e d s)") auto
  then show ?case
  proof
    assume "p \<in> set (successes [fst (create_person e d s)])"
    with create_person_cases[of e d s] Cons.prems(2) show ?thesis by auto
  next
    assume p: "p \<in> set (successes (fst (register_all cs ?s1)))"
    from Cons.prems(2) create_person_persons_mono[of s e d] have "q \<in> set (persons ?s1)"
      by blast
    with p show ?thesis by (rule Cons.IH)
  qed
qed

lemma register_all_distinct:
  "distinct (map p_employee_id (successes (fst (register_all cs s))))"
proof (induction cs arbitrary: s)
  case Nil
  then show ?case by simp
next
  case (Cons c cs)
  obtain e d where c: "c = (e, d)" by (cases c)
  let ?s1 = "snd (create_person e d s)"
  have ih: "distinct (map p_employee_id (successes (fst (register_all cs ?s1))))"
    by (rule Cons.IH)
  from create_person_cases[of e d s] show ?case
  proof (elim disjE conjE)
    assume "create_person e d s = (Inl DuplicateEmployeeId, s)"
    with ih show ?thesis unfolding c register_all_Cons by simp
  next
    assume ok: "create_person e d s =
        (Inr (new_person e d), s\<lparr>persons := persons s @ [new_person e d]\<rparr>)"
    then have new: "new_person e d \<in> set (persons ?s1)" by simp
    have "pc_employee_id d \<notin> p_employee_id ` set (successes (fst (register_all cs ?s1)))"
    proof
      assume "pc_employee_id d \<in> p_employee_id ` set (successes (fst (register_all cs ?s1)))"
      then obtain q where q: "q \<in> set (successes (fst (register_all cs ?s1)))"
        and "p_employee_id q = pc_employee_id d" by auto
      with register_all_fresh[OF q new] show False by simp
    qed
    with ih ok show ?thesis unfolding c register_all_Cons by simp
  qed
qed

lemma register_all_unique_employee_ids:
  assumes "unique_employee_ids s"
  shows "unique_employee_ids (snd (register_all cs s))"
proof -
  have "p_employee_id ` set (persons s) \<inter>
      p_employee_id ` set (successes (fst (register_all cs s))) = {}"
  proof (rule ccontr)
    assume "p_employee_id ` set (persons s) \<inter>
      p_employee_id ` set (successes (fst (register_all cs s))) \<noteq> {}"
    then obtain k where "k \<in> p_employee_id ` set (persons s)"
      and "k \<in> p_employee_id ` set (successes (fst (register_all cs s)))" by blast
    then obtain p q where "p \<in> set (successes (fst (register_all cs s)))"
      and "q \<in> set (persons s)" and "p_employee_id q = p_employee_id p"
      by (metis imageE)
    with register_all_fresh[of p cs s q] show False by simp
  qed
  with assms register_all_distinct[of cs s] show ?thesis
    by (simp add: unique_employee_ids_def register_all_persons)
qed


section \<open>Sorting by descending key\<close>

lemma sorted_desc_sort_key:
  "sorted_wrt (\<lambda>x y. k y \<le> k x) (rev (sort_key k xs))"
proof -
  have "sorted (map k (sort_key k xs))" by simp
  then have "sorted_wrt (\<lambda>x y. k x \<le> k y) (sort_key k xs)"
    by (simp only: sorted_map)
  then show ?thesis by (simp add: sorted_wrt_rev)
qed

lemma mset_take_drop: "mset (take n xs) + mset (drop n xs) = mset xs"
  by (metis append_take_drop_id mset_append)

lemma find_sort_desc_to_list_sorted:
  "sorted_wrt (\<lambda>x y. k y \<le> k x) (find_sort_desc_to_list q k n docs)"
  unfolding find_sort_desc_to_list_def
  by (rule sorted_wrt_take) (rule sorted_desc_sort_key)

lemma find_sort_desc_to_list_mset:
  "mset (find_sort_desc_to_list q k n docs) +
     mset (drop n (rev (sort_key k (filter q docs)))) = mset (filter q docs)"
  unfolding find_sort_desc_to_list_def by (simp add: mset_take_drop)

lemma find_sort_desc_to_list_length:
  "length (find_sort_desc_to_list q k n docs) = min n (length (filter q docs))"
  by (simp add: find_sort_desc_to_list_def min.commute)

lemma find_sort_desc_to_list_omitted:
  assumes "x \<in> set (find_sort_desc_to_list q k n docs)"
    and "y \<in># mset (filter q docs) - mset (find_sort_desc_to_list q k n docs)"
  shows "k y \<le> k x"
proof -
  let ?ys = "rev (sort_key k (filter q docs))"
  have "mset (filter q docs) - mset (find_sort_desc_to_list q k n docs) = mset (drop n ?ys)"
    using find_sort_desc_to_list_mset[of q k n docs]
    by (metis add_diff_cancel_left')
  with assms(2) have y: "y \<in> set (drop n ?ys)" by simp
  from assms(1) have x: "x \<in> set (take n ?ys)"
    by (simp add: find_sort_desc_to_list_def)
  have "sorted_wrt (\<lambda>x y. k y \<le> k x) (take n ?ys @ drop n ?ys)"
    by (simp add: sorted_desc_sort_key)
  with x y show ?thesis
    unfolding sorted_wrt_append by blast
qed

lemma map_sort_key: "map k (sort_key k xs) = sort (map k xs)"
  by (rule properties_for_sort[symmetric]) simp_all

lemma find_sort_desc_to_list_keys:
  "map k (find_sort_desc_to_list q k n docs) = take n (rev (sort (map k (filter q docs))))"
proof -
  have "map k (take n (rev (sort_key k (filter q docs)))) =
      take n (rev (map k (sort_key k (filter q docs))))"
    by (simp only: take_map rev_map)
  then show ?thesis
    by (simp only: find_sort_desc_to_list_def map_sort_key)
qed

lemma sort_mset_cong: "mset xs = mset ys \<Longrightarrow> sort xs = sort ys"
  by (rule properties_for_sort) simp_all

lemma find_sort_desc_to_list_keys_cong:
  assumes "mset docs = mset docs'"
  shows "map k (find_sort_desc_to_list q k n docs) = map k (find_sort_desc_to_list q k n docs')"
proof -
  from assms have "mset (filter q docs) = mset (filter q docs')"
    by (metis mset_filter)
  then have "mset (map k (filter q docs)) = mset (map k (filter q docs'))"
    by (metis mset_map)
  then have "sort (map k (filter q docs)) = sort (map k (filter q docs'))"
    by (rule sort_mset_cong)
  then show ?thesis
    by (simp only: find_sort_desc_to_list_keys)
qed

lemma inj_dt_key: "inj dt_key"
  by (rule injI) (simp add: dt_key_def datetime.equality)

section \<open>A task run without interruption is the handler\<close>

lemma run_task_2: "run_task 2 t s = task_step (fst (task_step t s)) (snd (task_step t s))"
  by (simp add: numeral_2_eq_2 split: prod.splits)



lemma delete_person_serial:
  "run_task 2 (Delete_delete_one pid) s =
     (Done (to_reply Message_reply (fst (delete_person pid s))), snd (delete_person pid s))"
  by (simp add: run_task_2 delete_person_def to_reply_def Let_def split: prod.splits)


section \<open>Deleting a person\<close>


lemma task_step_delete_one:
  "task_step (Delete_delete_one pid) s =
     (if has_person pid s then Delete_delete_many pid else Done (Error_reply PersonNotFound),
      s\<lparr>persons := snd (delete_one (\<lambda>p. p_id p = pid) (persons s))\<rparr>)"
  by (simp add: Let_def case_prod_beta fst_delete_one has_person_def)

section \<open>The day key determines the calendar day\<close>

lemma length_decimal [simp]: "length (decimal w n) = w"
  by (induction w arbitrary: n) simp_all

lemma digit_inj: "a < 10 \<Longrightarrow> b < 10 \<Longrightarrow> digit a = digit b \<Longrightarrow> a = b"
proof -
  assume a: "a < 10" and b: "b < 10" and eq: "digit a = digit b"
  have d: "distinct ''0123456789''" by simp
  have l: "length ''0123456789'' = 10" by simp
  from eq nth_eq_iff_index_eq[OF d, of a b] a b l show "a = b"
    by (simp add: digit_def)
qed

lemma decimal_inj:
  "n < 10 ^ w \<Longrightarrow> m < 10 ^ w \<Longrightarrow> decimal w n = decimal w m \<Longrightarrow> n = m"
proof (induction w arbitrary: n m)
  case 0
  then show ?case by simp
next
  case (Suc w)
  from Suc.prems(3) have eq: "decimal w (n div 10) = decimal w (m div 10)"
    and last: "digit (n mod 10) = digit (m mod 10)"
    by simp_all
  from Suc.prems(1,2) have bn: "n div 10 < 10 ^ w" and bm: "m div 10 < 10 ^ w"
    by (simp_all add: div_less_iff_less_mult mult.commute)
  have "n div 10 = m div 10" by (rule Suc.IH[OF bn bm eq])
  moreover from last have "n mod 10 = m mod 10" by (intro digit_inj) simp_all
  ultimately show ?case by (metis div_mult_mod_eq)
qed

lemma strftime_ymd_inj:
  assumes "valid_date a" and "valid_date b" and "strftime_ymd a = strftime_ymd b"
  shows "calendar_day a = calendar_day b"
proof -
  from assms(3) have y: "decimal 4 (year a) = decimal 4 (year b)"
    and m: "decimal 2 (month a) = decimal 2 (month b)"
    and d: "decimal 2 (day a) = decimal 2 (day b)"
    by (simp_all add: strftime_ymd_def)
  from assms(1,2) have "year a < 10 ^ 4" "year b < 10 ^ 4"
    by (simp_all add: valid_date_def)
  then have "year a = year b" using y by (rule decimal_inj)
  moreover from assms(1,2) have "month a < 10 ^ 2" "month b < 10 ^ 2"
    by (simp_all add: valid_date_def)
  then have "month a = month b" using m by (rule decimal_inj)
  moreover from assms(1,2) have "day a < 10 ^ 2" "day b < 10 ^ 2"
    by (simp_all add: valid_date_def)
  then have "day a = day b" using d by (rule decimal_inj)
  ultimately show ?thesis
    by (simp add: calendar_day_def)
qed

lemma length_strftime_ymd: "length (strftime_ymd d) = 10"
  by (simp add: strftime_ymd_def)

section \<open>The running example, evaluated\<close>

lemma decimal_2: "decimal 2 n = [digit (n div 10 mod 10), digit (n mod 10)]"
  by (simp add: numeral_2_eq_2)

lemma decimal_4:
  "decimal 4 n = [digit (n div 10 div 10 div 10 mod 10), digit (n div 10 div 10 mod 10),
     digit (n div 10 mod 10), digit (n mod 10)]"
proof -
  have four: "(4::nat) = Suc (Suc (Suc (Suc 0)))" by simp
  show ?thesis unfolding four by simp
qed

lemma strftime_ymd_mk_datetime:
  "strftime_ymd (mk_datetime y m d h mi) = decimal 4 y @ ''-'' @ decimal 2 m @ ''-'' @ decimal 2 d"
  by (simp add: strftime_ymd_def mk_datetime_def)

lemma clock_days:
  "strftime_ymd (me_now clock_1) = ''2024-03-07''"
  "strftime_ymd (me_now_default clock_1) = ''2024-03-07''"
  "strftime_ymd (me_now clock_2) = ''2024-03-07''"
  "strftime_ymd (me_now_default clock_2) = ''2024-03-07''"
  by (simp_all add: clock_1_def clock_2_def strftime_ymd_mk_datetime decimal_2 decimal_4 digit_def)

lemmas example_defs = alice_def bob_def env_a_def env_b_def mark_alice_def new_person_def
  new_attendance_def empty_db_def

lemmas handler_defs = create_person_def mark_attendance_def delete_person_def find_one_def
  insert_one_def delete_many_def Let_def

lemma run_alice:
  "run [CreatePerson env_a alice] empty_db =
     \<lparr>persons = [new_person env_a alice], attendance = []\<rparr>"
  by (simp add: run_Nil run_Cons handler_defs empty_db_def)

lemma run_alice_marked:
  "run [CreatePerson env_a alice, MarkAttendance clock_1 mark_alice] empty_db =
     \<lparr>persons = [new_person env_a alice], attendance = [new_attendance clock_1 mark_alice]\<rparr>"
  by (simp add: run_Nil run_Cons handler_defs example_defs)

lemma clock_3_days:
  "strftime_ymd (me_now clock_3) = ''2024-03-08''"
  "strftime_ymd (me_now_default clock_3) = ''2024-03-08''"
  by (simp_all add: clock_3_def strftime_ymd_mk_datetime decimal_2 decimal_4 digit_def)

lemma run_alice_marked_twice:
  "run [CreatePerson env_a alice, MarkAttendance clock_1 mark_alice,
        MarkAttendance clock_3 mark_alice] empty_db =
     \<lparr>persons = [new_person env_a alice],
      attendance = [new_attendance clock_1 mark_alice, new_attendance clock_3 mark_alice]\<rparr>"
  by (simp add: run_Nil run_Cons handler_defs example_defs clock_days clock_3_days)

lemma example_timestamps:
  "dt_key (a_timestamp (new_attendance clock_1 mark_alice)) = (2024, 3, 7, 9, 0, 0, 0)"
  "dt_key (a_timestamp (new_attendance clock_3 mark_alice)) = (2024, 3, 7, 23, 30, 0, 0)"
  by (simp_all add: new_attendance_def clock_1_def clock_3_def mk_datetime_def dt_key_def)

lemma example_person_ids:
  "a_person_id (new_attendance e mark_alice) = ''id-a''"
  by (simp add: new_attendance_def mark_alice_def)


section \<open>Facts about the listings and the open day\<close>

lemma records_on_length_count:
  "int (length (records_on d s)) = count_documents (\<lambda>r. a_date r = d) (attendance s)"
  by (simp add: records_on_def count_documents_def)

lemma run_register_visitors:
  "n \<le> 10000 \<Longrightarrow>
   run (map register_visitor [0..<n]) empty_db =
     \<lparr>persons = map visitor_person [0..<n], attendance = []\<rparr>"
proof (induction n)
  case 0
  then show ?case by (simp add: run_Nil empty_db_def)
next
  case (Suc n)
  let ?s = "\<lparr>persons = map visitor_person [0..<n], attendance = []\<rparr>"
  let ?d = "\<lparr>pc_name = ''Visitor'', pc_employee_id = ''V'' @ decimal 4 n, pc_face_descriptor = [],
        pc_photo = [], pc_role = ''student''\<rparr>"
  have "\<forall>p\<in>set (persons ?s). p_employee_id p \<noteq> pc_employee_id ?d"
  proof
    fix p assume "p \<in> set (persons ?s)"
    then obtain i where i: "i < n" and p: "p = visitor_person i" by auto
    from i Suc.prems have "decimal 4 i \<noteq> decimal 4 n"
      using decimal_inj[of i 4 n] by auto
    then show "p_employee_id p \<noteq> pc_employee_id ?d"
      by (simp add: p visitor_person_def)
  qed
  from create_person_fresh[OF this]
  have "apply_request (register_visitor n) ?s =
      \<lparr>persons = map visitor_person [0..<Suc n], attendance = []\<rparr>"
    by (simp add: register_visitor_def new_person_def visitor_person_def)
  with Suc show ?case
    by (simp add: run_append run_Cons run_Nil)
qed

lemma run_mark_visitors:
  "n \<le> m \<Longrightarrow> m \<le> 10000 \<Longrightarrow>
   run (map mark_visitor [0..<n]) \<lparr>persons = map visitor_person [0..<m], attendance = []\<rparr> =
     \<lparr>persons = map visitor_person [0..<m], attendance = map visitor_record [0..<n]\<rparr>"
proof (induction n)
  case 0
  then show ?case by (simp add: run_Nil)
next
  case (Suc n)
  let ?s = "\<lparr>persons = map visitor_person [0..<m], attendance = map visitor_record [0..<n]\<rparr>"
  let ?e = "\<lparr>me_now = mk_datetime 2024 3 7 10 0, me_uuid4 = ''record-'' @ decimal 4 n,
        me_utcnow = mk_datetime 2024 3 7 9 0, me_now_default = mk_datetime 2024 3 7 10 0\<rparr>"
  let ?a = "\<lparr>ac_person_id = visitor_id n, ac_person_name = ''Visitor'',
        ac_employee_id = ''V'' @ decimal 4 n, ac_confidence = 9 / 10, ac_photo = None\<rparr>"
  have day: "strftime_ymd (mk_datetime 2024 3 7 10 0) = ''2024-03-07''"
    by (simp add: strftime_ymd_mk_datetime decimal_2 decimal_4 digit_def)
  from Suc.prems have "visitor_person n \<in> set (persons ?s)" by simp
  then have hp: "has_person (ac_person_id ?a) ?s"
    unfolding has_person_def by (rule rev_bexI) (simp add: visitor_person_def)
  have nm: "\<not> has_mark (ac_person_id ?a) (strftime_ymd (me_now ?e)) ?s"
  proof
    assume "has_mark (ac_person_id ?a) (strftime_ymd (me_now ?e)) ?s"
    then obtain i where i: "i < n" and "a_person_id (visitor_record i) = visitor_id n"
      by (auto simp: has_mark_def)
    then have "decimal 4 i = decimal 4 n"
      by (simp add: visitor_record_def visitor_id_def)
    with i Suc.prems decimal_inj[of i 4 n] show False by auto
  qed
  from mark_attendance_success[OF hp nm]
  have "apply_request (mark_visitor n) ?s =
      \<lparr>persons = map visitor_person [0..<m], attendance = map visitor_record [0..<Suc n]\<rparr>"
    by (simp add: mark_visitor_def new_attendance_def visitor_record_def day)
  with Suc show ?case
    by (simp add: run_append run_Cons run_Nil)
qed

lemma open_day_eq:
  "open_day = \<lparr>persons = map visitor_person [0..<1001], attendance = map visitor_record [0..<1001]\<rparr>"
  unfolding open_day_def run_append
  by (simp only: run_register_visitors[of 1001, simplified] run_mark_visitors[of 1001 1001, simplified])

lemma records_on_open_day: "records_on ''2024-03-07'' open_day = map visitor_record [0..<1001]"
  by (simp add: open_day_eq records_on_def visitor_record_def filter_map comp_def)

lemma run_dates:
  "r \<in> set (attendance (run rs s)) \<Longrightarrow>
   r \<in> set (attendance s) \<or> (\<exists>dt. a_date r = strftime_ymd dt)"
proof (induction rs arbitrary: s)
  case Nil
  then show ?case by (simp add: run_Nil)
next
  case (Cons q rs)
  from Cons.prems have "r \<in> set (attendance (apply_request q s)) \<or>
      (\<exists>dt. a_date r = strftime_ymd dt)"
    using Cons.IH[of "apply_request q s"] by (simp add: run_Cons)
  moreover have "r \<in> set (attendance s) \<or> (\<exists>dt. a_date r = strftime_ymd dt)"
    if "r \<in> set (attendance (apply_request q s))"
  proof (cases q)
    case (CreatePerson e d)
    with that show ?thesis by simp
  next
    case (DeletePerson pid)
    with that delete_person_cases[of pid s] show ?thesis by auto
  next
    case (MarkAttendance e a)
    with that mark_attendance_cases[of e a s] show ?thesis
      by (auto simp: new_attendance_def)
  qed
  ultimately show ?case by blast
qed

section \<open>Unique marks under a steady clock\<close>






section \<open>The ids of the stored persons\<close>

lemma delete_one_mset_subset: "mset (snd (delete_one q xs)) \<subseteq># mset xs"
proof (cases "\<exists>x\<in>set xs. q x")
  case True
  from delete_one_mset[OF this] show ?thesis
    by (metis mset_subset_eq_add_mset_cancel subset_mset.order_refl
        mset_subset_eq_insertD subset_mset.dual_order.strict_implies_order)
next
  case False
  then show ?thesis by (simp add: delete_one_none)
qed

lemma apply_request_person_ids:
  "mset (map p_id (persons (apply_request r s))) + mset (created_ids rs) \<subseteq>#
   mset (map p_id (persons s)) + mset (created_ids (r # rs))"
proof (cases r)
  case (CreatePerson e d)
  with create_person_cases[of e d s] show ?thesis by auto
next
  case (DeletePerson pid)
  have "mset (persons (snd (delete_person pid s))) \<subseteq># mset (persons s)"
    using delete_person_cases[of pid s] delete_one_mset_subset[of "\<lambda>p. p_id p = pid" "persons s"]
    by auto
  then have "image_mset p_id (mset (persons (snd (delete_person pid s)))) \<subseteq>#
      image_mset p_id (mset (persons s))"
    by (rule image_mset_subseteq_mono)
  with DeletePerson show ?thesis by simp
next
  case (MarkAttendance e a)
  then show ?thesis by simp
qed

lemma run_person_ids:
  "mset (map p_id (persons (run rs s))) \<subseteq># mset (map p_id (persons s)) + mset (created_ids rs)"
proof (induction rs arbitrary: s)
  case Nil
  then show ?case by (simp add: run_Nil)
next
  case (Cons r rs)
  have "mset (map p_id (persons (run rs (apply_request r s)))) \<subseteq>#
      mset (map p_id (persons (apply_request r s))) + mset (created_ids rs)"
    by (rule Cons.IH)
  also have "\<dots> \<subseteq># mset (map p_id (persons s)) + mset (created_ids (r # rs))"
    by (rule apply_request_person_ids)
  finally show ?case by (simp add: run_Cons)
qed

lemma run_never_registered:
  assumes "pid \<notin> set (created_ids rs)"
  shows "\<not> has_person pid (run rs empty_db)"
proof
  assume "has_person pid (run rs empty_db)"
  then have "pid \<in> set (map p_id (persons (run rs empty_db)))"
    by (auto simp: has_person_def)
  moreover from run_person_ids[of rs empty_db]
  have "set_mset (mset (map p_id (persons (run rs empty_db)))) \<subseteq> set_mset (mset (created_ids rs))"
    by (intro set_mset_mono) (simp add: empty_db_def)
  ultimately have "pid \<in> set (created_ids rs)"
    by (simp only: set_mset_mset) blast
  with assms show False by simp
qed

lemma run_unique_person_ids:
  assumes "distinct (created_ids rs)"
  shows "unique_person_ids (run rs empty_db)"
proof -
  let ?ids = "map p_id (persons (run rs empty_db))"
  have le: "count (mset ?ids) x \<le> 1" for x
  proof -
    have "count (mset ?ids) x \<le> count (mset (created_ids rs)) x"
      using run_person_ids[of rs empty_db] by (simp add: empty_db_def mset_subset_eq_count)
    also have "\<dots> \<le> 1"
      using assms by (simp add: distinct_count_atmost_1)
    finally show ?thesis .
  qed
  have "count (mset ?ids) x = (if x \<in> set ?ids then 1 else 0)" for x
  proof (cases "x \<in> set ?ids")
    case True
    then have "0 < count (mset ?ids) x" by (simp only: count_greater_zero_iff set_mset_mset)
    with le[of x] have "count (mset ?ids) x = 1" by linarith
    with True show ?thesis by (simp only: if_True)
  next
    case False
    then have "count (mset ?ids) x = 0" by (metis count_mset_0_iff)
    with False show ?thesis by (simp only: if_False)
  qed
  then have "distinct ?ids" by (simp only: distinct_count_atmost_1) simp
  then show ?thesis by (simp add: unique_person_ids_def)
qed

lemma created_ids_append: "created_ids (rs @ rs') = created_ids rs @ created_ids rs'"
  by (induction rs rule: created_ids.induct) simp_all

lemma run_has_person:
  assumes "has_person pid (run rs s)"
  shows "has_person pid s \<or> pid \<in> set (created_ids rs)"
proof -
  from assms have "pid \<in> set (map p_id (persons (run rs s)))"
    by (auto simp: has_person_def)
  moreover from run_person_ids[of rs s]
  have "set_mset (mset (map p_id (persons (run rs s)))) \<subseteq>
      set_mset (mset (map p_id (persons s)) + mset (created_ids rs))"
    by (rule set_mset_mono)
  ultimately have "pid \<in> set (map p_id (persons s)) \<or> pid \<in> set (created_ids rs)"
    by (simp only: set_mset_mset set_mset_union) blast
  then show ?thesis by (auto simp: has_person_def)
qed

lemma delete_person_unique_gone:
  assumes "unique_person_ids s"
  shows "\<not> has_person pid (snd (delete_person pid s))"
proof (cases "has_person pid s")
  case True
  with delete_person_found[of pid s]
  have "persons (snd (delete_person pid s)) = snd (delete_one (\<lambda>p. p_id p = pid) (persons s))"
    by simp
  with assms delete_one_key_gone[of p_id "persons s" _ pid] show ?thesis
    by (auto simp: has_person_def unique_person_ids_def)
next
  case False
  with delete_person_not_found[of pid s] show ?thesis by simp
qed

lemma run_deleted_gone:
  assumes d: "distinct (created_ids (rs1 @ DeletePerson pid # rs2))"
    and h: "has_person pid (run rs1 empty_db)"
  shows "\<not> has_person pid (run (rs1 @ DeletePerson pid # rs2) empty_db)"
proof -
  let ?s2 = "snd (delete_person pid (run rs1 empty_db))"
  from d have dd: "distinct (created_ids rs1 @ created_ids rs2)"
    by (simp add: created_ids_append)
  then have "unique_person_ids (run rs1 empty_db)"
    by (simp add: run_unique_person_ids)
  then have gone: "\<not> has_person pid ?s2"
    by (rule delete_person_unique_gone)
  from h run_has_person[of pid rs1 empty_db] have "pid \<in> set (created_ids rs1)"
    by (auto simp: has_person_def empty_db_def)
  with dd have "pid \<notin> set (created_ids rs2)" by auto
  with gone run_has_person[of pid rs2 ?s2] have "\<not> has_person pid (run rs2 ?s2)"
    by blast
  moreover have "run (rs1 @ DeletePerson pid # rs2) empty_db = run rs2 ?s2"
    by (simp add: run_append run_Cons)
  ultimately show ?thesis by simp
qed


section \<open>One attendance record per person and day\<close>




section \<open>Unique employee ids\<close>

text \<open>
  Claim C2. In every database that a sequence of requests builds from the empty one, no
  two persons share an \<open>employee_id\<close>. Registering an \<open>employee_id\<close> that a stored
  person already has fails with "Employee ID already exists" and leaves both collections
  as they were. Registering a fresh one succeeds, appends exactly one person, whose \<open>id\<close>
  and \<open>created_at\<close> are the \<open>uuid4\<close> and the UTC clock reading of the call, and returns
  that person. Of any sequence of registrations, no two succeed with the same
  \<open>employee_id\<close>, and the ones that succeed are exactly the persons added.
\<close>

theorem create_person_unique_employee_id:
  assumes "s = run rs empty_db"
  shows "unique_employee_ids s \<and>
    (\<forall>e d. (\<exists>p\<in>set (persons s). p_employee_id p = pc_employee_id d) \<longrightarrow>
       create_person e d s = (Inl DuplicateEmployeeId, s)) \<and>
    (\<forall>e d. (\<forall>p\<in>set (persons s). p_employee_id p \<noteq> pc_employee_id d) \<longrightarrow>
       create_person e d s = (Inr (new_person e d), s\<lparr>persons := persons s @ [new_person e d]\<rparr>) \<and>
       p_id (new_person e d) = pe_uuid4 e \<and> p_created_at (new_person e d) = pe_utcnow e \<and>
       p_employee_id (new_person e d) = pc_employee_id d \<and>
       unique_employee_ids (s\<lparr>persons := persons s @ [new_person e d]\<rparr>)) \<and>
    (\<forall>cs. distinct (map p_employee_id (successes (fst (register_all cs s)))) \<and>
       persons (snd (register_all cs s)) = persons s @ successes (fst (register_all cs s)) \<and>
       attendance (snd (register_all cs s)) = attendance s \<and>
       unique_employee_ids (snd (register_all cs s)))"
proof (intro conjI allI impI)
  show u: "unique_employee_ids s"
    using assms run_unique_employee_ids[of empty_db rs] by (simp add: empty_db_invariants)
  show "create_person e d s = (Inl DuplicateEmployeeId, s)"
    if "\<exists>p\<in>set (persons s). p_employee_id p = pc_employee_id d" for e and d :: person_create
    using that by (rule create_person_duplicate)
  show "distinct (map p_employee_id (successes (fst (register_all cs s))))" for cs
    by (rule register_all_distinct)
  show "persons (snd (register_all cs s)) = persons s @ successes (fst (register_all cs s))" for cs
    by (rule register_all_persons)
  show "attendance (snd (register_all cs s)) = attendance s" for cs
    by (rule register_all_attendance)
  show "unique_employee_ids (snd (register_all cs s))" for cs
    using u by (rule register_all_unique_employee_ids)
  fix e and d :: person_create
  assume fresh: "\<forall>p\<in>set (persons s). p_employee_id p \<noteq> pc_employee_id d"
  then show c: "create_person e d s =
      (Inr (new_person e d), s\<lparr>persons := persons s @ [new_person e d]\<rparr>)"
    by (rule create_person_fresh)
  show "p_id (new_person e d) = pe_uuid4 e" "p_created_at (new_person e d) = pe_utcnow e"
    "p_employee_id (new_person e d) = pc_employee_id d"
    by (simp_all add: new_person_def)
  from u create_person_unique_employee_ids[of s e d] c
  show "unique_employee_ids (s\<lparr>persons := persons s @ [new_person e d]\<rparr>)"
    by simp
qed

theorem create_person_unique_employee_id_witness:
  "(\<exists>p\<in>set (persons (run [CreatePerson env_a alice] empty_db)).
      p_employee_id p = pc_employee_id alice) \<and>
   create_person env_b alice (run [CreatePerson env_a alice] empty_db) =
     (Inl DuplicateEmployeeId, run [CreatePerson env_a alice] empty_db) \<and>
   pc_employee_id bob \<notin> p_employee_id ` set (persons (run [CreatePerson env_a alice] empty_db)) \<and>
   create_person env_b bob (run [CreatePerson env_a alice] empty_db) =
     (Inr (new_person env_b bob),
      \<lparr>persons = [new_person env_a alice, new_person env_b bob], attendance = []\<rparr>) \<and>
   p_id (new_person env_b bob) = ''id-b'' \<and>
   unique_employee_ids (run [CreatePerson env_a alice] empty_db) \<and>
   distinct (map p_employee_id
     (successes (fst (register_all [(env_a, alice), (env_b, alice), (env_b, bob)] empty_db))))"
proof -
  let ?s = "run [CreatePerson env_a alice] empty_db"
  note t = create_person_unique_employee_id[OF refl, of "[CreatePerson env_a alice]"]
  have dup: "\<exists>p\<in>set (persons ?s). p_employee_id p = pc_employee_id alice"
    unfolding run_alice by simp
  have fresh: "\<forall>p\<in>set (persons ?s). p_employee_id p \<noteq> pc_employee_id bob"
    unfolding run_alice by (simp add: alice_def bob_def)
  have upd: "?s\<lparr>persons := persons ?s @ [new_person env_b bob]\<rparr> =
      \<lparr>persons = [new_person env_a alice, new_person env_b bob], attendance = []\<rparr>"
    unfolding run_alice by simp
  from t dup have "create_person env_b alice ?s = (Inl DuplicateEmployeeId, ?s)" by blast
  moreover from t fresh have "create_person env_b bob ?s =
      (Inr (new_person env_b bob), ?s\<lparr>persons := persons ?s @ [new_person env_b bob]\<rparr>)"
    by blast
  then have "create_person env_b bob ?s =
      (Inr (new_person env_b bob),
       \<lparr>persons = [new_person env_a alice, new_person env_b bob], attendance = []\<rparr>)"
    by (simp only: upd)
  moreover from t fresh have "p_id (new_person env_b bob) = pe_uuid4 env_b" by blast
  then have "p_id (new_person env_b bob) = ''id-b''" by (simp add: env_b_def)
  moreover from t have "unique_employee_ids ?s" by blast
  moreover from create_person_unique_employee_id[OF refl, of "[]", unfolded run_Nil]
  have "distinct (map p_employee_id
     (successes (fst (register_all [(env_a, alice), (env_b, alice), (env_b, bob)] empty_db))))"
    by blast
  moreover have "pc_employee_id bob \<notin> p_employee_id ` set (persons ?s)"
    unfolding run_alice by (simp add: alice_def bob_def)
  ultimately show ?thesis using dup by blast
qed

section \<open>Deleting a person and its attendance records\<close>

text \<open>
  Claim C3, as stated, at a concrete input. Alice is registered and marked. Her deletion
  performs \<open>delete_one\<close>; before it performs \<open>delete_many\<close>, a \<open>get_person\<close> request
  answers "Person not found" and a history request still returns her attendance record.
\<close>

theorem delete_person_partial_state_observed:
  "run_schedule [0, 1, 2, 0]
     [Delete_delete_one ''id-a'', Get_person_find_one ''id-a'', History_find ''id-a'']
     (run [CreatePerson env_a alice, MarkAttendance clock_1 mark_alice] empty_db) =
   ([Done (Message_reply ''Person and their attendance records deleted successfully''),
     Done (Error_reply PersonNotFound),
     Done (Attendance_list_reply [new_attendance clock_1 mark_alice])], empty_db)"
  unfolding run_alice_marked
  by (simp add: find_one_def delete_many_def find_sort_desc_to_list_def new_attendance_def
      new_person_def mark_alice_def env_a_def empty_db_def)

text \<open>
  Claim C3, amended. \<open>delete_person\<close> fails with "Person not found" and changes nothing
  when no stored person has the id. Otherwise it succeeds, removes one person with that id
  and every attendance record whose \<open>person_id\<close> is the id. It does so in two storage
  operations: after the first the person is removed and the attendance collection is as
  before; the second removes the records and ends the request.
\<close>

theorem delete_person_two_operations:
  "(\<not> has_person pid s \<longrightarrow> delete_person pid s = (Inl PersonNotFound, s)) \<and>
   (has_person pid s \<longrightarrow>
      fst (delete_person pid s) = Inr ''Person and their attendance records deleted successfully'' \<and>
      (\<exists>p. p_id p = pid \<and> mset (persons s) = add_mset p (mset (persons (snd (delete_person pid s))))) \<and>
      attendance (snd (delete_person pid s)) = filter (\<lambda>r. a_person_id r \<noteq> pid) (attendance s) \<and>
      fst (task_step (Delete_delete_one pid) s) = Delete_delete_many pid \<and>
      persons (snd (task_step (Delete_delete_one pid) s)) = persons (snd (delete_person pid s)) \<and>
      attendance (snd (task_step (Delete_delete_one pid) s)) = attendance s \<and>
      task_step (Delete_delete_many pid) (snd (task_step (Delete_delete_one pid) s)) =
        (Done (Message_reply ''Person and their attendance records deleted successfully''),
         snd (delete_person pid s)))"
proof (intro conjI impI)
  assume "\<not> has_person pid s"
  then show "delete_person pid s = (Inl PersonNotFound, s)"
    by (rule delete_person_not_found)
next
  assume h: "has_person pid s"
  note d = delete_person_found[OF h]
  note t = task_step_delete_one[of pid s]
  show "fst (delete_person pid s) = Inr ''Person and their attendance records deleted successfully''"
    by (simp add: d)
  show "\<exists>p. p_id p = pid \<and> mset (persons s) = add_mset p (mset (persons (snd (delete_person pid s))))"
    using h delete_one_mset[of "persons s" "\<lambda>p. p_id p = pid"] by (simp add: d has_person_def)
  show "attendance (snd (delete_person pid s)) = filter (\<lambda>r. a_person_id r \<noteq> pid) (attendance s)"
    by (simp add: d)
  show "fst (task_step (Delete_delete_one pid) s) = Delete_delete_many pid"
    using h unfolding t by simp
  show "persons (snd (task_step (Delete_delete_one pid) s)) = persons (snd (delete_person pid s))"
    unfolding t by (simp add: d)
  show "attendance (snd (task_step (Delete_delete_one pid) s)) = attendance s"
    unfolding t by simp
  show "task_step (Delete_delete_many pid) (snd (task_step (Delete_delete_one pid) s)) =
        (Done (Message_reply ''Person and their attendance records deleted successfully''),
         snd (delete_person pid s))"
    unfolding t by (simp add: d delete_many_def)
qed

theorem delete_person_two_operations_witness:
  "\<not> has_person ''id-b'' (run [CreatePerson env_a alice, MarkAttendance clock_1 mark_alice] empty_db) \<and>
   delete_person ''id-b'' (run [CreatePerson env_a alice, MarkAttendance clock_1 mark_alice] empty_db) =
     (Inl PersonNotFound, run [CreatePerson env_a alice, MarkAttendance clock_1 mark_alice] empty_db) \<and>
   has_person ''id-a'' (run [CreatePerson env_a alice, MarkAttendance clock_1 mark_alice] empty_db) \<and>
   fst (delete_person ''id-a'' (run [CreatePerson env_a alice, MarkAttendance clock_1 mark_alice] empty_db)) =
     Inr ''Person and their attendance records deleted successfully'' \<and>
   attendance (snd (delete_person ''id-a''
     (run [CreatePerson env_a alice, MarkAttendance clock_1 mark_alice] empty_db))) = [] \<and>
   attendance (snd (task_step (Delete_delete_one ''id-a'')
     (run [CreatePerson env_a alice, MarkAttendance clock_1 mark_alice] empty_db))) =
     [new_attendance clock_1 mark_alice]"
proof -
  let ?s = "run [CreatePerson env_a alice, MarkAttendance clock_1 mark_alice] empty_db"
  have nb: "\<not> has_person ''id-b'' ?s"
    unfolding run_alice_marked by (simp add: has_person_def env_a_def)
  have ha: "has_person ''id-a'' ?s"
    unfolding run_alice_marked by (simp add: has_person_def env_a_def)
  have att: "attendance ?s = [new_attendance clock_1 mark_alice]"
    unfolding run_alice_marked by simp
  have who: "a_person_id (new_attendance clock_1 mark_alice) = ''id-a''"
    by (simp add: new_attendance_def mark_alice_def)
  from delete_person_two_operations[of "''id-b''" ?s] nb
  have "delete_person ''id-b'' ?s = (Inl PersonNotFound, ?s)" by blast
  moreover from delete_person_two_operations[of "''id-a''" ?s] ha
  have "fst (delete_person ''id-a'' ?s) =
      Inr ''Person and their attendance records deleted successfully'' \<and>
    attendance (snd (delete_person ''id-a'' ?s)) =
      filter (\<lambda>r. a_person_id r \<noteq> ''id-a'') (attendance ?s) \<and>
    attendance (snd (task_step (Delete_delete_one ''id-a'') ?s)) = attendance ?s"
    by blast
  ultimately show ?thesis using nb ha by (simp add: att who)
qed

section \<open>Marking attendance for an unknown person\<close>

text \<open>
  Claim C4. Marking attendance for a \<open>person_id\<close> that no stored person has fails with
  "Person not found" and leaves the database as it was, so no attendance record is
  created. That is the case for an id that no registration of the run was given, and,
  in a run whose registrations were given distinct ids, for the id of a person who was
  registered and then deleted, whatever requests followed the deletion.
\<close>

theorem mark_attendance_person_not_found:
  assumes "ac_person_id a = pid"
  shows "(\<not> has_person pid s \<longrightarrow> mark_attendance e a s = (Inl PersonNotFound, s)) \<and>
    (pid \<notin> set (created_ids rs) \<longrightarrow>
       mark_attendance e a (run rs empty_db) = (Inl PersonNotFound, run rs empty_db)) \<and>
    (distinct (created_ids (rs1 @ DeletePerson pid # rs2)) \<and> has_person pid (run rs1 empty_db) \<longrightarrow>
       mark_attendance e a (run (rs1 @ DeletePerson pid # rs2) empty_db) =
         (Inl PersonNotFound, run (rs1 @ DeletePerson pid # rs2) empty_db))"
proof (intro conjI impI)
  show "mark_attendance e a s = (Inl PersonNotFound, s)" if "\<not> has_person pid s"
    using that assms mark_attendance_not_found[of a s e] by simp
  show "mark_attendance e a (run rs empty_db) = (Inl PersonNotFound, run rs empty_db)"
    if "pid \<notin> set (created_ids rs)"
    using run_never_registered[OF that] assms mark_attendance_not_found[of a "run rs empty_db" e]
    by simp
  assume h: "distinct (created_ids (rs1 @ DeletePerson pid # rs2)) \<and> has_person pid (run rs1 empty_db)"
  let ?s3 = "run (rs1 @ DeletePerson pid # rs2) empty_db"
  from h have "\<not> has_person pid ?s3"
    by (simp add: run_deleted_gone)
  with assms mark_attendance_not_found[of a ?s3 e]
  show "mark_attendance e a ?s3 = (Inl PersonNotFound, ?s3)" by simp
qed

theorem mark_attendance_person_not_found_witness:
  "ac_person_id mark_alice = ''id-a'' \<and>
   \<not> has_person ''id-a'' empty_db \<and>
   mark_attendance clock_1 mark_alice empty_db = (Inl PersonNotFound, empty_db) \<and>
   ''id-a'' \<notin> set (created_ids [CreatePerson env_b bob]) \<and>
   mark_attendance clock_1 mark_alice (run [CreatePerson env_b bob] empty_db) =
     (Inl PersonNotFound, run [CreatePerson env_b bob] empty_db) \<and>
   distinct (created_ids ([CreatePerson env_a alice] @ DeletePerson ''id-a'' # [CreatePerson env_b bob])) \<and>
   has_person ''id-a'' (run [CreatePerson env_a alice] empty_db) \<and>
   mark_attendance clock_1 mark_alice
       (run ([CreatePerson env_a alice] @ DeletePerson ''id-a'' # [CreatePerson env_b bob]) empty_db) =
     (Inl PersonNotFound,
      run ([CreatePerson env_a alice] @ DeletePerson ''id-a'' # [CreatePerson env_b bob]) empty_db)"
proof -
  have a: "ac_person_id mark_alice = ''id-a''"
    by (simp add: mark_alice_def)
  have 1: "\<not> has_person ''id-a'' empty_db"
    by (simp add: has_person_def empty_db_def)
  have 2: "''id-a'' \<notin> set (created_ids [CreatePerson env_b bob])"
    by (simp add: env_b_def)
  have 3: "distinct (created_ids ([CreatePerson env_a alice] @ DeletePerson ''id-a'' #
      [CreatePerson env_b bob]))"
    by (simp add: env_a_def env_b_def)
  have 4: "has_person ''id-a'' (run [CreatePerson env_a alice] empty_db)"
    unfolding run_alice by (simp add: has_person_def env_a_def)
  note t = mark_attendance_person_not_found[OF a, of _ clock_1]
  from t[of empty_db] 1 have "mark_attendance clock_1 mark_alice empty_db =
      (Inl PersonNotFound, empty_db)" by blast
  moreover from t[of _ "[CreatePerson env_b bob]"] 2
  have "mark_attendance clock_1 mark_alice (run [CreatePerson env_b bob] empty_db) =
      (Inl PersonNotFound, run [CreatePerson env_b bob] empty_db)" by blast
  moreover from t[of _ _ "[CreatePerson env_a alice]" "[CreatePerson env_b bob]"] 3 4
  have "mark_attendance clock_1 mark_alice
       (run ([CreatePerson env_a alice] @ DeletePerson ''id-a'' # [CreatePerson env_b bob]) empty_db) =
     (Inl PersonNotFound,
      run ([CreatePerson env_a alice] @ DeletePerson ''id-a'' # [CreatePerson env_b bob]) empty_db)"
    by blast
  ultimately show ?thesis using a 1 2 3 4 by blast
qed

section \<open>Attendance statistics\<close>



section \<open>Listings after a deletion\<close>



section \<open>The attendance history of a person\<close>

text \<open>
  Claim C7. The attendance history of \<open>pid\<close> never fails and changes nothing. It is
  sorted most recent first; every record in it is a stored record of \<open>pid\<close>, no more
  often than it is stored; it has 100 records, or all of them when \<open>pid\<close> has fewer; a
  record of \<open>pid\<close> that it omits is no more recent than any record it returns; and the
  timestamps it returns do not depend on the order in which the records were inserted.
\<close>

theorem history_most_recent_first:
  "\<exists>h. get_person_attendance_history pid s = (Inr h, s) \<and>
     sorted_wrt newer_or_equal h \<and>
     mset h \<subseteq># mset (records_of pid s) \<and>
     length h = min 100 (length (records_of pid s)) \<and>
     (length (records_of pid s) \<le> 100 \<longrightarrow> mset h = mset (records_of pid s)) \<and>
     (\<forall>x\<in>set h. \<forall>y\<in>#mset (records_of pid s) - mset h. newer_or_equal x y) \<and>
     (\<forall>s' h'. mset (attendance s') = mset (attendance s) \<and>
        fst (get_person_attendance_history pid s') = Inr h' \<longrightarrow>
        map a_timestamp h' = map a_timestamp h)"
proof -
  let ?q = "\<lambda>r. a_person_id r = pid" and ?k = "\<lambda>r. dt_key (a_timestamp r)"
  let ?h = "find_sort_desc_to_list ?q ?k 100 (attendance s)"
  have 1: "get_person_attendance_history pid s = (Inr ?h, s)"
    by (simp add: get_person_attendance_history_def)
  have 2: "sorted_wrt newer_or_equal ?h"
    using find_sort_desc_to_list_sorted[of ?k ?q 100 "attendance s"]
    by (simp add: newer_or_equal_def[abs_def])
  have 3: "mset ?h \<subseteq># mset (records_of pid s)"
    using find_sort_desc_to_list_mset[of ?q ?k 100 "attendance s"]
    by (metis mset_subset_eq_add_left records_of_def)
  have 4: "length ?h = min 100 (length (records_of pid s))"
    by (simp add: find_sort_desc_to_list_length records_of_def)
  have 5: "mset ?h = mset (records_of pid s)" if "length (records_of pid s) \<le> 100"
    using that find_sort_desc_to_list_mset[of ?q ?k 100 "attendance s"]
    by (simp add: records_of_def)
  have 6: "newer_or_equal x y"
    if "x \<in> set ?h" "y \<in># mset (records_of pid s) - mset ?h" for x y
    using that find_sort_desc_to_list_omitted[of x ?q ?k 100 "attendance s" y]
    by (simp add: newer_or_equal_def records_of_def)
  have 7: "map a_timestamp h' = map a_timestamp ?h"
    if "mset (attendance s') = mset (attendance s) \<and>
        fst (get_person_attendance_history pid s') = Inr h'" for s' h'
  proof -
    from that have h': "h' = find_sort_desc_to_list ?q ?k 100 (attendance s')"
      by (simp add: get_person_attendance_history_def)
    from that have "map ?k h' = map ?k ?h"
      unfolding h' by (intro find_sort_desc_to_list_keys_cong) simp
    then have "map dt_key (map a_timestamp h') = map dt_key (map a_timestamp ?h)"
      by (simp add: comp_def)
    then show ?thesis
      by (simp only: inj_map_eq_map[OF inj_dt_key])
  qed
  from 1 2 3 4 5 6 7 show ?thesis by blast
qed

theorem history_most_recent_first_witness:
  "get_person_attendance_history ''id-a''
     (run [CreatePerson env_a alice, MarkAttendance clock_1 mark_alice,
           MarkAttendance clock_3 mark_alice] empty_db) =
     (Inr [new_attendance clock_3 mark_alice, new_attendance clock_1 mark_alice],
      run [CreatePerson env_a alice, MarkAttendance clock_1 mark_alice,
           MarkAttendance clock_3 mark_alice] empty_db) \<and>
   records_of ''id-a''
     (run [CreatePerson env_a alice, MarkAttendance clock_1 mark_alice,
           MarkAttendance clock_3 mark_alice] empty_db) =
     [new_attendance clock_1 mark_alice, new_attendance clock_3 mark_alice] \<and>
   sorted_wrt newer_or_equal [new_attendance clock_3 mark_alice, new_attendance clock_1 mark_alice] \<and>
   mset [new_attendance clock_3 mark_alice, new_attendance clock_1 mark_alice] =
     mset [new_attendance clock_1 mark_alice, new_attendance clock_3 mark_alice] \<and>
   fst (get_person_attendance_history ''id-a''
     \<lparr>persons = [new_person env_a alice],
      attendance = [new_attendance clock_3 mark_alice, new_attendance clock_1 mark_alice]\<rparr>) =
     Inr [new_attendance clock_3 mark_alice, new_attendance clock_1 mark_alice]"
proof -
  let ?s = "run [CreatePerson env_a alice, MarkAttendance clock_1 mark_alice,
           MarkAttendance clock_3 mark_alice] empty_db"
  let ?r1 = "new_attendance clock_1 mark_alice" and ?r3 = "new_attendance clock_3 mark_alice"
  let ?s' = "\<lparr>persons = [new_person env_a alice], attendance = [?r3, ?r1]\<rparr>"
  have h: "get_person_attendance_history ''id-a'' ?s = (Inr [?r3, ?r1], ?s)"
    unfolding run_alice_marked_twice
    by (simp add: get_person_attendance_history_def find_sort_desc_to_list_def
        example_person_ids example_timestamps)
  have h': "fst (get_person_attendance_history ''id-a'' ?s') = Inr [?r3, ?r1]"
    by (simp add: get_person_attendance_history_def find_sort_desc_to_list_def
        example_person_ids example_timestamps)
  have recs: "records_of ''id-a'' ?s = [?r1, ?r3]"
    unfolding run_alice_marked_twice by (simp add: records_of_def example_person_ids)
  have perm: "mset (attendance ?s') = mset (attendance ?s)"
    unfolding run_alice_marked_twice by simp
  from history_most_recent_first[of "''id-a''" ?s] h
  have "sorted_wrt newer_or_equal [?r3, ?r1] \<and>
     (length (records_of ''id-a'' ?s) \<le> 100 \<longrightarrow> mset [?r3, ?r1] = mset (records_of ''id-a'' ?s)) \<and>
     (\<forall>s' h'. mset (attendance s') = mset (attendance ?s) \<and>
        fst (get_person_attendance_history ''id-a'' s') = Inr h' \<longrightarrow>
        map a_timestamp h' = map a_timestamp [?r3, ?r1])"
    by auto
  then have "sorted_wrt newer_or_equal [?r3, ?r1]"
    and "mset [?r3, ?r1] = mset [?r1, ?r3]"
    by (simp_all add: recs)
  with h h' recs show ?thesis by simp
qed

section \<open>Concurrent requests\<close>




section \<open>The clocks behind \<open>timestamp\<close> and \<open>date\<close>\<close>

text \<open>
  Claim C9. The record that a successful \<open>mark_attendance\<close> creates has the reading of the
  UTC clock as \<open>timestamp\<close> and the formatted reading of the local clock as \<open>date\<close>.
  Whenever the two readings fall on different calendar days, the record's \<open>date\<close> is not
  the day key of its own \<open>timestamp\<close>.
\<close>

theorem mark_attendance_utc_timestamp_local_date:
  "mark_attendance e a s = (Inr r, s') \<longrightarrow>
     a_timestamp r = me_utcnow e \<and> a_date r = strftime_ymd (me_now_default e) \<and>
     (valid_date (me_utcnow e) \<and> valid_date (me_now_default e) \<and>
      calendar_day (me_now_default e) \<noteq> calendar_day (me_utcnow e) \<longrightarrow>
        a_date r \<noteq> strftime_ymd (a_timestamp r))"
proof
  assume "mark_attendance e a s = (Inr r, s')"
  with mark_attendance_cases[of e a s] have r: "r = new_attendance e a" by auto
  then have ts: "a_timestamp r = me_utcnow e" and d: "a_date r = strftime_ymd (me_now_default e)"
    by (simp_all add: new_attendance_def)
  have "a_date r \<noteq> strftime_ymd (a_timestamp r)"
    if "valid_date (me_utcnow e) \<and> valid_date (me_now_default e) \<and>
      calendar_day (me_now_default e) \<noteq> calendar_day (me_utcnow e)"
    using that strftime_ymd_inj[of "me_now_default e" "me_utcnow e"] by (auto simp: ts d)
  with ts d show "a_timestamp r = me_utcnow e \<and> a_date r = strftime_ymd (me_now_default e) \<and>
     (valid_date (me_utcnow e) \<and> valid_date (me_now_default e) \<and>
      calendar_day (me_now_default e) \<noteq> calendar_day (me_utcnow e) \<longrightarrow>
        a_date r \<noteq> strftime_ymd (a_timestamp r))"
    by blast
qed

theorem mark_attendance_utc_timestamp_local_date_witness:
  "mark_attendance clock_3 mark_alice (run [CreatePerson env_a alice] empty_db) =
     (Inr (new_attendance clock_3 mark_alice),
      \<lparr>persons = [new_person env_a alice], attendance = [new_attendance clock_3 mark_alice]\<rparr>) \<and>
   valid_date (me_utcnow clock_3) \<and> valid_date (me_now_default clock_3) \<and>
   calendar_day (me_now_default clock_3) = (2024, 3, 8) \<and>
   calendar_day (me_utcnow clock_3) = (2024, 3, 7) \<and>
   a_date (new_attendance clock_3 mark_alice) = ''2024-03-08'' \<and>
   strftime_ymd (a_timestamp (new_attendance clock_3 mark_alice)) = ''2024-03-07'' \<and>
   a_date (new_attendance clock_3 mark_alice) \<noteq>
     strftime_ymd (a_timestamp (new_attendance clock_3 mark_alice))"
proof -
  let ?r = "new_attendance clock_3 mark_alice"
  have m: "mark_attendance clock_3 mark_alice (run [CreatePerson env_a alice] empty_db) =
     (Inr ?r, \<lparr>persons = [new_person env_a alice], attendance = [?r]\<rparr>)"
    unfolding run_alice by (simp add: handler_defs env_a_def mark_alice_def)
  have v: "valid_date (me_utcnow clock_3)" "valid_date (me_now_default clock_3)"
    by (simp_all add: clock_3_def mk_datetime_def valid_date_def)
  have c: "calendar_day (me_now_default clock_3) = (2024, 3, 8)"
    "calendar_day (me_utcnow clock_3) = (2024, 3, 7)"
    by (simp_all add: clock_3_def mk_datetime_def calendar_day_def)
  have ne: "calendar_day (me_now_default clock_3) \<noteq> calendar_day (me_utcnow clock_3)"
    by (simp add: c)
  have d: "a_date ?r = ''2024-03-08''" "strftime_ymd (a_timestamp ?r) = ''2024-03-07''"
    by (simp_all add: new_attendance_def clock_3_def strftime_ymd_mk_datetime decimal_2 decimal_4
        digit_def)
  from mark_attendance_utc_timestamp_local_date[of clock_3 mark_alice
      "run [CreatePerson env_a alice] empty_db" ?r
      "\<lparr>persons = [new_person env_a alice], attendance = [?r]\<rparr>"] m v ne
  have "a_date ?r \<noteq> strftime_ymd (a_timestamp ?r)" by blast
  with m v c d show ?thesis by simp
qed

section \<open>Attendance by date\<close>

text \<open>
  Claim C10, as stated, at a concrete input. On the open day 1001 stored records have the
  date \<open>2024-03-07\<close>; the attendance of that date does not return exactly them.
\<close>

theorem get_attendance_by_date_truncates:
  "fst (get_attendance_by_date ''2024-03-07'' open_day) \<noteq> Inr (records_on ''2024-03-07'' open_day)"
proof
  assume "fst (get_attendance_by_date ''2024-03-07'' open_day) =
      Inr (records_on ''2024-03-07'' open_day)"
  then have "take 1000 (records_on ''2024-03-07'' open_day) = records_on ''2024-03-07'' open_day"
    by (simp add: get_attendance_by_date_def find_to_list_def records_on_def)
  then have "length (take 1000 (map visitor_record [0..<1001])) =
      length (map visitor_record [0..<1001])"
    by (simp only: records_on_open_day)
  then show False by simp
qed

text \<open>
  Claim C10, amended. \<open>get_attendance_by_date\<close> takes any string, never fails and leaves
  the database as it was. It returns, in stored order, the first 1000 stored records whose
  \<open>date\<close> is the string: all of them when there are at most 1000. For a string that is
  not the day key of any datetime it returns the empty list, in every database that a
  sequence of requests builds from the empty one.
\<close>

theorem get_attendance_by_date_first_1000:
  "\<exists>rs. get_attendance_by_date date_str s = (Inr rs, s) \<and>
     rs = take 1000 (records_on date_str s) \<and>
     (length (records_on date_str s) \<le> 1000 \<longrightarrow> rs = records_on date_str s) \<and>
     (s = run reqs empty_db \<and> (\<forall>dt. date_str \<noteq> strftime_ymd dt) \<longrightarrow> rs = [])"
proof -
  have "records_on date_str s = []"
    if "s = run reqs empty_db \<and> (\<forall>dt. date_str \<noteq> strftime_ymd dt)"
  proof -
    have "a_date r \<noteq> date_str" if "r \<in> set (attendance s)" for r
      using that \<open>s = run reqs empty_db \<and> (\<forall>dt. date_str \<noteq> strftime_ymd dt)\<close>
        run_dates[of r reqs empty_db]
      by (auto simp: empty_db_def)
    then show ?thesis by (simp add: records_on_def filter_empty_conv)
  qed
  then show ?thesis
    by (auto simp: get_attendance_by_date_def find_to_list_def records_on_def)
qed

theorem get_attendance_by_date_first_1000_witness:
  "length (records_on ''2024-03-07''
     (run [CreatePerson env_a alice, MarkAttendance clock_1 mark_alice] empty_db)) \<le> 1000 \<and>
   get_attendance_by_date ''2024-03-07''
     (run [CreatePerson env_a alice, MarkAttendance clock_1 mark_alice] empty_db) =
     (Inr [new_attendance clock_1 mark_alice],
      run [CreatePerson env_a alice, MarkAttendance clock_1 mark_alice] empty_db) \<and>
   (\<forall>dt. ''yesterday'' \<noteq> strftime_ymd dt) \<and>
   get_attendance_by_date ''yesterday''
     (run [CreatePerson env_a alice, MarkAttendance clock_1 mark_alice] empty_db) =
     (Inr [], run [CreatePerson env_a alice, MarkAttendance clock_1 mark_alice] empty_db)"
proof -
  let ?s = "run [CreatePerson env_a alice, MarkAttendance clock_1 mark_alice] empty_db"
  have r: "records_on ''2024-03-07'' ?s = [new_attendance clock_1 mark_alice]"
    unfolding run_alice_marked by (simp add: records_on_def new_attendance_def clock_days)
  have n: "\<forall>dt. ''yesterday'' \<noteq> strftime_ymd dt"
  proof
    fix dt
    have "length ''yesterday'' \<noteq> length (strftime_ymd dt)"
      by (simp add: length_strftime_ymd)
    then show "''yesterday'' \<noteq> strftime_ymd dt" by metis
  qed
  from get_attendance_by_date_first_1000[of "''2024-03-07''" ?s]
  have 1: "get_attendance_by_date ''2024-03-07'' ?s = (Inr [new_attendance clock_1 mark_alice], ?s)"
    by (auto simp: r)
  from get_attendance_by_date_first_1000[of "''yesterday''" ?s
      "[CreatePerson env_a alice, MarkAttendance clock_1 mark_alice]"] n
  have 2: "get_attendance_by_date ''yesterday'' ?s = (Inr [], ?s)"
    by auto
  from 1 2 n r show ?thesis by simp
qed

end
